theory Spec2Isabelle
  imports Main
begin

section \<open>Strings of the host language\<close>

text \<open>
  The program is TypeScript. Its strings are modelled as \<open>string\<close> (lists of 8-bit
  characters), which covers the Latin-1 range of the host's code units; numbers that
  hold indices are \<open>int\<close>, because \<open>indexOf\<close> answers \<open>-1\<close> when nothing is found.
  Within Latin-1 the characters that \<open>trim\<close> and the regular-expression class
  \<open>\s\<close> treat as white space are TAB, LF, VT, FF, CR, SPACE and NBSP.
\<close>

abbreviation DQ :: char where "DQ \<equiv> CHR 0x22"
abbreviation SQ :: char where "SQ \<equiv> CHR 0x27"
abbreviation LF :: char where "LF \<equiv> CHR 0x0A"
abbreviation CR :: char where "CR \<equiv> CHR 0x0D"

definition isWhiteSpace :: "char \<Rightarrow> bool" where
  "isWhiteSpace c =
     (c = CHR 0x09 \<or> c = LF \<or> c = CHR 0x0B \<or> c = CHR 0x0C \<or> c = CR
      \<or> c = CHR 0x20 \<or> c = CHR 0xA0)"

definition trimStart :: "string \<Rightarrow> string" where
  "trimStart s = dropWhile isWhiteSpace s"

definition trimEnd :: "string \<Rightarrow> string" where
  "trimEnd s = rev (dropWhile isWhiteSpace (rev s))"

definition trim :: "string \<Rightarrow> string" where
  "trim s = trimEnd (trimStart s)"

text \<open>\<open>s.replace(/\r/g, '')\<close>: every carriage return is deleted.\<close>

definition removeCR :: "string \<Rightarrow> string" where
  "removeCR s = filter (\<lambda>c. c \<noteq> CR) s"

definition isQuote :: "char \<Rightarrow> bool" where
  "isQuote c = (c = DQ \<or> c = SQ)"

text \<open>
  \<open>s.replace(/^["']|["']$/g, '')\<close>. The global replacement scans from the left: the
  first alternative can only match at offset 0 and deletes a quote character standing
  there; the second alternative deletes a quote character standing at the last offset,
  provided that character was not already consumed by the first match.
\<close>

definition stripQuotes :: "string \<Rightarrow> string" where
  "stripQuotes s =
     (let s1 = (case s of [] \<Rightarrow> [] | c # cs \<Rightarrow> if isQuote c then cs else s)
      in if s1 \<noteq> [] \<and> isQuote (last s1) then butlast s1 else s1)"

definition startsWith :: "string \<Rightarrow> char \<Rightarrow> bool" where
  "startsWith s c = (case s of [] \<Rightarrow> False | d # _ \<Rightarrow> d = c)"

definition endsWith :: "string \<Rightarrow> char \<Rightarrow> bool" where
  "endsWith s c = (s \<noteq> [] \<and> last s = c)"

text \<open>
  \<open>toLowerCase\<close> on Latin-1 text works character by character: the letters A to Z and
  the accented capitals 0xC0 to 0xDE (the multiplication sign 0xD7 excepted) move up by
  0x20, every other character stays.
\<close>

definition toLowerChar :: "char \<Rightarrow> char" where
  "toLowerChar c =
     (let n = (of_char c :: nat)
      in if (65 \<le> n \<and> n \<le> 90) \<or> (192 \<le> n \<and> n \<le> 222 \<and> n \<noteq> 215)
         then char_of (n + 32) else c)"

definition toLowerCase :: "string \<Rightarrow> string" where
  "toLowerCase s = map toLowerChar s"

text \<open>\<open>Array.prototype.indexOf\<close>: the first index holding the element, else \<open>-1\<close>.\<close>

fun indexOfFrom :: "'a list \<Rightarrow> 'a \<Rightarrow> int \<Rightarrow> int" where
  "indexOfFrom [] x i = -1"
| "indexOfFrom (y # ys) x i = (if y = x then i else indexOfFrom ys x (i + 1))"

definition indexOf :: "'a list \<Rightarrow> 'a \<Rightarrow> int" where
  "indexOf xs x = indexOfFrom xs x 0"

section \<open>config/settings.ts\<close>

text \<open>The default cycle table of \<open>getConfig\<close>.\<close>

definition defaultToggleValues :: "string list list" where
  "defaultToggleValues =
     [[''true'', ''false''], [''TRUE'', ''FALSE''], [''yes'', ''no''], [''YES'', ''NO''],
      [''1'', ''0''], [''on'', ''off''], [''ON'', ''OFF''], [''enabled'', ''disabled''],
      [''ENABLED'', ''DISABLED''], [''production'', ''development''], [''prod'', ''dev'']]"

text \<open>
  The normalisation at the head of \<open>findToggleValues\<close>:
  \<open>value.trim().replace(/\r/g, '')\<close> followed by the quote-stripping replacement.
\<close>

definition unquotedValueOf :: "string \<Rightarrow> string" where
  "unquotedValueOf v = stripQuotes (removeCR (trim v))"

text \<open>The \<open>for (const group of toggleValues)\<close> loop of \<open>findToggleValues\<close>.\<close>

fun findGroup :: "string \<Rightarrow> string list list \<Rightarrow> string list option" where
  "findGroup unquotedValue [] = None"
| "findGroup unquotedValue (grp # rest) =
     (if unquotedValue \<in> set grp then Some grp
      else let lowerValue = toLowerCase unquotedValue;
               lowerGroup = map toLowerCase grp
           in if lowerValue \<in> set lowerGroup then Some grp
              else findGroup unquotedValue rest)"

definition findToggleValues :: "string \<Rightarrow> string list list \<Rightarrow> string list option" where
  "findToggleValues v table =
     (let unquotedValue = unquotedValueOf v
      in if unquotedValue = [] then None else findGroup unquotedValue table)"

text \<open>
  \<open>getNextValue\<close>. When the lookup succeeds the cycle is non-empty and \<open>nextIndex\<close> lies
  inside it, so the read \<open>toggleValues[nextIndex]\<close> is always in range.
\<close>

definition getNextValue :: "string \<Rightarrow> string list \<Rightarrow> string" where
  "getNextValue v cycle =
     (let trimmedValue = trim v;
          hasDoubleQuotes = (startsWith trimmedValue DQ \<and> endsWith trimmedValue DQ);
          hasSingleQuotes = (startsWith trimmedValue SQ \<and> endsWith trimmedValue SQ);
          unquotedValue = stripQuotes trimmedValue;
          currentIndex = indexOf cycle unquotedValue
      in if currentIndex = -1 then v
         else let nextIndex = (currentIndex + 1) mod int (length cycle);
                  newValue = cycle ! nat nextIndex
              in if hasDoubleQuotes then [DQ] @ newValue @ [DQ]
                 else if hasSingleQuotes then [SQ] @ newValue @ [SQ]
                 else newValue)"

section \<open>types\<close>

text \<open>
  A URI is identified with its \<open>fsPath\<close>, a string. \<open>DotFileEntry.toggleValues\<close> is an
  optional field of the source interface, hence an \<open>option\<close>.
\<close>

type_synonym uri = string

record DotFileEntry =
  key :: string
  value' :: string
  line :: int
  valueStart :: int
  valueEnd :: int
  isToggleable :: bool
  toggleValues :: "string list option"
  rawLine :: string

record ParsedDotFile =
  uri :: uri
  relativePath :: string
  entries :: "DotFileEntry list"
  toggleableEntries :: "DotFileEntry list"

record DotfileToggleConfig =
  filePatterns :: "string list"
  toggleValuesTable :: "string list list"
  showGitignoreWarning :: bool
  showOnlyToggleable :: bool

record ToggleResult =
  success :: bool
  newValue :: "string option"
  error :: "string option"
  wasGitignoreWarningShown :: "bool option"

section \<open>parser/dotFileParser.ts\<close>

text \<open>
  \<open>KEY_VALUE_REGEX = /^(?:export\s+)?([A-Za-z_][A-Za-z0-9_.-]*)\s*=\s*(.*)$/\<close>.
  The character classes of the key, of white space and the equals sign are pairwise
  disjoint, so each greedy quantifier has exactly one length at which the rest can still
  match. The dot does not match a line terminator and \<open>$\<close> (no multiline flag) only
  matches at the very end, so the match fails when a line terminator is left after the
  white space that follows the equals sign. \<open>matchAssignment\<close> is the expression behind
  the optional \<open>export\<close> group and answers the two capture groups.
\<close>

definition isKeyStart :: "char \<Rightarrow> bool" where
  "isKeyStart c =
     (let n = (of_char c :: nat)
      in (65 \<le> n \<and> n \<le> 90) \<or> (97 \<le> n \<and> n \<le> 122) \<or> c = CHR ''_'')"

definition isKeyChar :: "char \<Rightarrow> bool" where
  "isKeyChar c =
     (let n = (of_char c :: nat)
      in (65 \<le> n \<and> n \<le> 90) \<or> (97 \<le> n \<and> n \<le> 122) \<or> (48 \<le> n \<and> n \<le> 57)
         \<or> c = CHR ''_'' \<or> c = CHR ''.'' \<or> c = CHR ''-'')"

definition matchAssignment :: "string \<Rightarrow> (string \<times> string) option" where
  "matchAssignment s =
     (case s of
        [] \<Rightarrow> None
      | c # cs \<Rightarrow>
          if \<not> isKeyStart c then None
          else (case dropWhile isWhiteSpace (dropWhile isKeyChar cs) of
                  [] \<Rightarrow> None
                | e # afterEquals \<Rightarrow>
                    if e \<noteq> CHR ''='' then None
                    else let rawValue = dropWhile isWhiteSpace afterEquals
                         in if LF \<in> set rawValue \<or> CR \<in> set rawValue then None
                            else Some (c # takeWhile isKeyChar cs, rawValue)))"

definition matchKeyValue :: "string \<Rightarrow> (string \<times> string) option" where
  "matchKeyValue s =
     (let afterExport = drop 6 s
      in if take 6 s = ''export'' \<and> afterExport \<noteq> [] \<and> isWhiteSpace (hd afterExport)
         then (case matchAssignment (dropWhile isWhiteSpace afterExport) of
                 Some m \<Rightarrow> Some m
               | None \<Rightarrow> matchAssignment s)
         else matchAssignment s)"

text \<open>
  \<open>String.prototype.indexOf(pattern)\<close> and \<open>indexOf(pattern, fromIndex)\<close>; the start
  index is clamped into the string. \<open>substring(n)\<close> with \<open>n \<ge> 0\<close> is \<open>drop\<close>.
\<close>

fun strIndexOfFrom :: "string \<Rightarrow> string \<Rightarrow> int \<Rightarrow> int" where
  "strIndexOfFrom [] pat i = (if pat = [] then i else -1)"
| "strIndexOfFrom (c # t) pat i =
     (if take (length pat) (c # t) = pat then i else strIndexOfFrom t pat (i + 1))"

definition strIndexOf :: "string \<Rightarrow> string \<Rightarrow> int" where
  "strIndexOf s pat = strIndexOfFrom s pat 0"

definition strIndexOfAt :: "string \<Rightarrow> string \<Rightarrow> int \<Rightarrow> int" where
  "strIndexOfAt s pat fromIndex =
     (let k = min (nat fromIndex) (length s) in strIndexOfFrom (drop k s) pat (int k))"

definition substringFrom :: "string \<Rightarrow> int \<Rightarrow> string" where
  "substringFrom s n = drop (nat n) s"

definition parseLine :: "string \<Rightarrow> int \<Rightarrow> string list list \<Rightarrow> DotFileEntry option" where
  "parseLine ln lineNumber table =
     (let trimmedLine = trim ln
      in if trimmedLine = [] \<or> startsWith trimmedLine (CHR ''#'') then None
         else let cleanLine = removeCR ln
              in (case matchKeyValue cleanLine of
                    None \<Rightarrow> None
                  | Some (k, rawValue) \<Rightarrow>
                      let v = trim rawValue;
                          keyIndex = strIndexOf cleanLine k;
                          equalsIndex = strIndexOfAt cleanLine ''='' keyIndex;
                          vStart = equalsIndex + 1
                            + (int (length (substringFrom cleanLine (equalsIndex + 1)))
                               - int (length (trimStart (substringFrom cleanLine (equalsIndex + 1)))));
                          vEnd = vStart + int (length v);
                          matchedToggleValues = findToggleValues v table
                      in Some \<lparr>key = k, value' = v, line = lineNumber,
                               valueStart = vStart, valueEnd = vEnd,
                               isToggleable = (matchedToggleValues \<noteq> None),
                               toggleValues = matchedToggleValues, rawLine = ln\<rparr>))"

text \<open>\<open>content.split('\n')\<close> and the loop over the lines with its running index.\<close>

fun splitLines :: "string \<Rightarrow> string list" where
  "splitLines [] = [[]]"
| "splitLines (c # cs) =
     (if c = LF then [] # splitLines cs
      else (case splitLines cs of [] \<Rightarrow> [[c]] | l # ls \<Rightarrow> (c # l) # ls))"

fun parseLines :: "string list \<Rightarrow> int \<Rightarrow> string list list \<Rightarrow> DotFileEntry list" where
  "parseLines [] i table = []"
| "parseLines (l # ls) i table =
     (case parseLine l i table of
        None \<Rightarrow> parseLines ls (i + 1) table
      | Some entry \<Rightarrow> entry # parseLines ls (i + 1) table)"

section \<open>The host editor\<close>

text \<open>
  The services run inside an editor whose interface is not part of the repository. What
  the editor and the version-control collaborator answer during one request is gathered
  in \<open>Host\<close>: the configuration read by \<open>getConfig\<close>, the answer of
  \<open>GitignoreService.isIgnored\<close>, the button the user picks in
  \<open>GitignoreService.showWarning\<close>, the display path, the path of the \<open>.gitignore\<close> file
  in the workspace folder of a file (absent when the file lies in no workspace folder),
  whether \<open>workspace.fs.writeFile\<close> succeeds on it, the text a template literal gives for
  \<open>line + 1\<close> when the line number lies outside the safe integers (there the host's
  double-precision arithmetic and number formatting decide), and whether the editor
  accepts a text edit (\<open>editor.edit\<close> and \<open>workspace.applyEdit\<close> both answer that
  boolean).

  \<open>World\<close> is the state a request can change: the text of every file the workspace can
  open or read (a file that cannot be opened is absent; the \<open>.gitignore\<close> file is one of
  them), the session's set of acknowledged files, and three logs of calls that leave the
  toggle service: calls of \<open>addToGitignore\<close>, documents brought into view by
  \<open>showTextDocument\<close>, and documents saved by \<open>document.save\<close>.
\<close>

datatype WarningChoice = ChoiceToggle | ChoiceGitignore | ChoiceCancel

record Host =
  config :: DotfileToggleConfig
  isIgnored :: "uri \<Rightarrow> bool"
  showWarning :: "uri \<Rightarrow> WarningChoice"
  asRelativePath :: "uri \<Rightarrow> string"
  gitignorePath :: "uri \<Rightarrow> uri option"
  gitignoreWritable :: bool
  largeNumberText :: "int \<Rightarrow> string"
  editApplies :: bool

record World =
  documents :: "uri \<rightharpoonup> string"
  acknowledgedFiles :: "uri set"
  gitignoreRequests :: "uri list"
  shownDocuments :: "uri list"
  savedDocuments :: "uri list"

text \<open>
  \<open>openTextDocument\<close> rejects when the document cannot be opened; the rejection carries
  the editor's message. \<open>lineAt\<close> throws for a line outside the document. Both are
  caught by the \<open>try\<close> block of the caller, which reports the message.
\<close>

definition openTextDocument :: "World \<Rightarrow> uri \<Rightarrow> string + string" where
  "openTextDocument w u =
     (case documents w u of
        None \<Rightarrow> Inl (''cannot open '' @ u)
      | Some text \<Rightarrow> Inr text)"

definition lineAt :: "string \<Rightarrow> int \<Rightarrow> string + string" where
  "lineAt text n =
     (if 0 \<le> n \<and> nat n < length (splitLines text) then Inr (splitLines text ! nat n)
      else Inl ''Illegal value for line'')"

fun joinLines :: "string list \<Rightarrow> string" where
  "joinLines [] = []"
| "joinLines [l] = l"
| "joinLines (l # ls) = l @ LF # joinLines ls"

text \<open>
  Replacing \<open>new vscode.Range(line, start, line, end)\<close> by a text: on the addressed line
  the characters from \<open>start\<close> up to \<open>end\<close> are exchanged, every other line stays. A
  range on a line the document does not have changes nothing.
\<close>

definition replaceRange :: "string \<Rightarrow> int \<Rightarrow> int \<Rightarrow> int \<Rightarrow> string \<Rightarrow> string" where
  "replaceRange text n start end' new =
     (let ls = splitLines text
      in if 0 \<le> n \<and> nat n < length ls
         then joinLines (ls[nat n := take (nat start) (ls ! nat n) @ new @ drop (nat end') (ls ! nat n)])
         else text)"

text \<open>\<open>parseFile\<close>: the configured table, the document's text, one entry per matching line.\<close>

definition parseFile :: "Host \<Rightarrow> World \<Rightarrow> uri \<Rightarrow> string + ParsedDotFile" where
  "parseFile h w u =
     (case openTextDocument w u of
        Inl message \<Rightarrow> Inl message
      | Inr content \<Rightarrow>
          let es = parseLines (splitLines content) 0 (toggleValuesTable (config h))
          in Inr \<lparr>uri = u, relativePath = asRelativePath h u, entries = es,
                  toggleableEntries = filter isToggleable es\<rparr>)"

section \<open>services/gitignoreService.ts\<close>

text \<open>
  \<open>addToGitignore\<close>: without a workspace folder nothing happens. Otherwise the ignore
  file is read (a file that cannot be read counts as empty); if one of its trimmed lines
  is the relative path already, nothing is written; else the path is appended on a line
  of its own and the file is written. A failing write is caught inside the method. The
  messages it shows and the boolean it answers are not used by the toggle service.
\<close>

definition addToGitignore :: "Host \<Rightarrow> uri \<Rightarrow> World \<Rightarrow> World" where
  "addToGitignore h u w =
     (case gitignorePath h u of
        None \<Rightarrow> w
      | Some ignoreFile \<Rightarrow>
          let relPath = asRelativePath h u;
              content = (case documents w ignoreFile of None \<Rightarrow> [] | Some c \<Rightarrow> c)
          in if relPath \<in> set (map trim (splitLines content)) then w
             else let newContent =
                        (if endsWith content LF \<or> content = [] then content @ relPath @ [LF]
                         else content @ [LF] @ relPath @ [LF])
                  in if gitignoreWritable h
                     then w\<lparr>documents := (documents w)(ignoreFile \<mapsto> newContent)\<rparr>
                     else w)"

section \<open>services/toggleService.ts\<close>

text \<open>
  The decimal text that a template literal produces for an integer, and the text of
  \<open>line + 1\<close>: for a safe integer \<open>line\<close> the sum is exact and printed in decimal.
\<close>

fun showNat :: "nat \<Rightarrow> string" where
  "showNat n = (if n < 10 then [char_of (48 + n)] else showNat (n div 10) @ [char_of (48 + n mod 10)])"

declare showNat.simps [simp del]

definition showInt :: "int \<Rightarrow> string" where
  "showInt i = (if i < 0 then CHR ''-'' # showNat (nat (- i)) else showNat (nat i))"

definition lineNumberText :: "Host \<Rightarrow> int \<Rightarrow> string" where
  "lineNumberText h n =
     (if - (2 ^ 53) \<le> n \<and> n < 2 ^ 53 then showInt (n + 1) else largeNumberText h n)"

definition failed :: "string \<Rightarrow> ToggleResult" where
  "failed message =
     \<lparr>success = False, newValue = None, error = Some message, wasGitignoreWarningShown = None\<rparr>"

definition succeeded :: "string \<Rightarrow> ToggleResult" where
  "succeeded v =
     \<lparr>success = True, newValue = Some v, error = None, wasGitignoreWarningShown = Some False\<rparr>"

text \<open>
  The block that opens both \<open>toggle\<close> and \<open>toggleSilent\<close> (the same statements in both
  methods): the warning for a file that is not ignored. \<open>Inl\<close> is the early return of a
  cancelled request, \<open>Inr\<close> the world in which the method goes on.
\<close>

definition gitignoreCheck :: "Host \<Rightarrow> uri \<Rightarrow> World \<Rightarrow> ToggleResult + World" where
  "gitignoreCheck h u w =
     (if showGitignoreWarning (config h) \<and> u \<notin> acknowledgedFiles w
      then if \<not> isIgnored h u
           then (case showWarning h u of
                   ChoiceCancel \<Rightarrow>
                     Inl \<lparr>success = False, newValue = None, error = Some ''Cancelled by user'',
                          wasGitignoreWarningShown = Some True\<rparr>
                 | ChoiceGitignore \<Rightarrow>
                     Inr ((addToGitignore h u w)
                            \<lparr>gitignoreRequests := gitignoreRequests w @ [u],
                             acknowledgedFiles := insert u (acknowledgedFiles w)\<rparr>)
                 | ChoiceToggle \<Rightarrow>
                     Inr (w\<lparr>acknowledgedFiles := insert u (acknowledgedFiles w)\<rparr>))
           else Inr w
      else Inr w)"

text \<open>
  \<open>toggle\<close>. Every path of the method ends in a \<open>ToggleResult\<close>: the \<open>catch\<close> clause
  turns a rejection of the editor into a failed result carrying its message.
\<close>

definition toggle :: "Host \<Rightarrow> uri \<Rightarrow> int \<Rightarrow> World \<Rightarrow> ToggleResult \<times> World" where
  "toggle h u n w =
     (case gitignoreCheck h u w of
        Inl cancelled \<Rightarrow> (cancelled, w)
      | Inr w1 \<Rightarrow>
          (case parseFile h w1 u of
             Inl message \<Rightarrow> (failed message, w1)
           | Inr parsed \<Rightarrow>
               (case find (\<lambda>e. line e = n) (entries parsed) of
                  None \<Rightarrow> (failed (''No entry found at line '' @ lineNumberText h n), w1)
                | Some entry \<Rightarrow>
                    if \<not> isToggleable entry \<or> toggleValues entry = None
                    then (failed (''Value '' @ [DQ] @ value' entry @ [DQ] @ '' is not toggleable''), w1)
                    else let newVal = getNextValue (value' entry) (the (toggleValues entry))
                         in (case openTextDocument w1 u of
                               Inl message \<Rightarrow> (failed message, w1)
                             | Inr text \<Rightarrow>
                                 let w2 = w1\<lparr>shownDocuments := shownDocuments w1 @ [u]\<rparr>
                                 in (case lineAt text n of
                                       Inl message \<Rightarrow> (failed message, w2)
                                     | Inr lineText \<Rightarrow>
                                         if editApplies h
                                         then (succeeded newVal,
                                               w2\<lparr>documents := (documents w2)
                                                     (u \<mapsto> replaceRange text n (valueStart entry)
                                                              (valueEnd entry) newVal),
                                                   savedDocuments := savedDocuments w2 @ [u]\<rparr>)
                                         else (failed ''Failed to apply edit'', w2))))))"

definition toggleEntry :: "Host \<Rightarrow> uri \<Rightarrow> DotFileEntry \<Rightarrow> World \<Rightarrow> ToggleResult \<times> World" where
  "toggleEntry h u entry w = toggle h u (line entry) w"

definition toggleSilent :: "Host \<Rightarrow> uri \<Rightarrow> int \<Rightarrow> World \<Rightarrow> ToggleResult \<times> World" where
  "toggleSilent h u n w =
     (case gitignoreCheck h u w of
        Inl cancelled \<Rightarrow> (cancelled, w)
      | Inr w1 \<Rightarrow>
          (case parseFile h w1 u of
             Inl message \<Rightarrow> (failed message, w1)
           | Inr parsed \<Rightarrow>
               (case find (\<lambda>e. line e = n) (entries parsed) of
                  None \<Rightarrow> (failed (''No entry found at line '' @ lineNumberText h n), w1)
                | Some entry \<Rightarrow>
                    if \<not> isToggleable entry \<or> toggleValues entry = None
                    then (failed (''Value '' @ [DQ] @ value' entry @ [DQ] @ '' is not toggleable''), w1)
                    else let newVal = getNextValue (value' entry) (the (toggleValues entry))
                         in (case openTextDocument w1 u of
                               Inl message \<Rightarrow> (failed message, w1)
                             | Inr text \<Rightarrow>
                                 if editApplies h
                                 then (succeeded newVal,
                                       w1\<lparr>documents := (documents w1)
                                             (u \<mapsto> replaceRange text n (valueStart entry)
                                                      (valueEnd entry) newVal),
                                           savedDocuments := savedDocuments w1 @ [u]\<rparr>)
                                 else (failed ''Failed to apply edit'', w1)))))"

section \<open>services/fileWatcherService.ts\<close>

text \<open>
  The cache of the watcher service: the map from path to parsed file and the number of
  times \<open>_onDidChange\<close> has fired. \<open>refresh\<close> is an asynchronous method with one
  suspension point, \<open>await parseAllFiles()\<close>. It is modelled by the two synchronous
  segments around that point: \<open>refreshClear\<close> runs before the method suspends,
  \<open>refreshStore\<close> runs when the scan has delivered its files. Other tasks read (and may
  write) the cache between the two segments.
\<close>

record FileIndex =
  parsedFiles :: "uri \<rightharpoonup> ParsedDotFile"
  changeEvents :: nat

definition refreshClear :: "FileIndex \<Rightarrow> FileIndex" where
  "refreshClear ix = ix\<lparr>parsedFiles := Map.empty\<rparr>"

fun storeFiles :: "ParsedDotFile list \<Rightarrow> (uri \<rightharpoonup> ParsedDotFile) \<Rightarrow> (uri \<rightharpoonup> ParsedDotFile)" where
  "storeFiles [] m = m"
| "storeFiles (file # files) m = storeFiles files (m(uri file \<mapsto> file))"

definition refreshStore :: "ParsedDotFile list \<Rightarrow> FileIndex \<Rightarrow> FileIndex" where
  "refreshStore files ix =
     ix\<lparr>parsedFiles := storeFiles files (parsedFiles ix), changeEvents := changeEvents ix + 1\<rparr>"

text \<open>The states of the cache that a consumer can read while one \<open>refresh\<close> runs alone.\<close>

definition refreshObservable :: "ParsedDotFile list \<Rightarrow> FileIndex \<Rightarrow> FileIndex list" where
  "refreshObservable files ix = [refreshClear ix, refreshStore files (refreshClear ix)]"

section \<open>Notions of the specification\<close>

text \<open>
  The specification's rule for when a cycle group matches a normalised value: the group
  holds the value verbatim or, failing that, under case-insensitive comparison.
\<close>

definition groupMatches :: "string \<Rightarrow> string list \<Rightarrow> bool" where
  "groupMatches u grp = (u \<in> set grp \<or> toLowerCase u \<in> set (map toLowerCase grp))"

text \<open>
  The specification's wording of value normalisation, kept apart from the program's
  \<open>unquotedValueOf\<close>: trim, then strip one layer of quotes only when the same quote
  character stands at both ends.
\<close>

definition specNormalize :: "string \<Rightarrow> string" where
  "specNormalize v =
     (let t = trim v
      in if 2 \<le> length t \<and> isQuote (hd t) \<and> last t = hd t then butlast (tl t) else t)"

section \<open>A concrete workspace\<close>

text \<open>
  A host with the default configuration whose files are all ignored by version control
  (so no warning is shown) and whose editor accepts edits, a workspace holding the single
  document \<open>.env\<close>, and a cache that knows one parsed file.
\<close>

definition defaultConfig :: DotfileToggleConfig where
  "defaultConfig =
     \<lparr>filePatterns = [''**/.env*'', ''**/.flags'', ''**/.config''],
      toggleValuesTable = defaultToggleValues,
      showGitignoreWarning = True, showOnlyToggleable = True\<rparr>"

definition quietHost :: Host where
  "quietHost =
     \<lparr>config = defaultConfig, isIgnored = (\<lambda>u. True), showWarning = (\<lambda>u. ChoiceCancel),
      asRelativePath = (\<lambda>u. u), gitignorePath = (\<lambda>u. Some ''.gitignore''),
      gitignoreWritable = True, largeNumberText = (\<lambda>n. showInt (n + 1)),
      editApplies = True\<rparr>"



definition envWorld :: "string \<Rightarrow> World" where
  "envWorld text =
     \<lparr>documents = [''.env'' \<mapsto> text], acknowledgedFiles = {}, gitignoreRequests = [],
      shownDocuments = [], savedDocuments = []\<rparr>"

definition envFile :: ParsedDotFile where
  "envFile = \<lparr>uri = ''.env'', relativePath = ''.env'', entries = [], toggleableEntries = []\<rparr>"

definition envIndex :: FileIndex where
  "envIndex = \<lparr>parsedFiles = [''.env'' \<mapsto> envFile], changeEvents = 0\<rparr>"

text \<open>
  The file of the specification's end-to-end scenario with what \<open>parseFile\<close> finds in
  it, an entry for line 0 whose other fields are out of date, and the line of the
  specification's offsets example with its entry.
\<close>

definition sampleText :: string where
  "sampleText = ''DEBUG=true'' @ [LF] @ ''# comment'' @ [LF] @ ''PORT=8080'' @ [LF]"

definition toggledText :: string where
  "toggledText = ''DEBUG=false'' @ [LF] @ ''# comment'' @ [LF] @ ''PORT=8080'' @ [LF]"

definition debugEntry :: DotFileEntry where
  "debugEntry =
     \<lparr>key = ''DEBUG'', value' = ''true'', line = 0, valueStart = 6, valueEnd = 10,
      isToggleable = True, toggleValues = Some [''true'', ''false''],
      rawLine = ''DEBUG=true''\<rparr>"

definition portEntry :: DotFileEntry where
  "portEntry =
     \<lparr>key = ''PORT'', value' = ''8080'', line = 2, valueStart = 5, valueEnd = 9,
      isToggleable = False, toggleValues = None, rawLine = ''PORT=8080''\<rparr>"

definition sampleParsed :: ParsedDotFile where
  "sampleParsed =
     \<lparr>uri = ''.env'', relativePath = ''.env'', entries = [debugEntry, portEntry],
      toggleableEntries = [debugEntry]\<rparr>"

definition staleEntry :: DotFileEntry where
  "staleEntry =
     \<lparr>key = ''DEBUG'', value' = ''false'', line = 0, valueStart = 40, valueEnd = 45,
      isToggleable = False, toggleValues = None, rawLine = ''DEBUG   =   false''\<rparr>"

definition spacedLine :: string where
  "spacedLine = ''FOO = '' @ [DQ] @ ''bar'' @ [DQ] @ ''  ''"

definition spacedEntry :: DotFileEntry where
  "spacedEntry =
     \<lparr>key = ''FOO'', value' = [DQ] @ ''bar'' @ [DQ], line = 0, valueStart = 6, valueEnd = 11,
      isToggleable = False, toggleValues = None, rawLine = spacedLine\<rparr>"

section \<open>Evaluation rules\<close>

lemmas string_eval = isWhiteSpace_def trimStart_def trimEnd_def trim_def removeCR_def isQuote_def
  stripQuotes_def startsWith_def endsWith_def toLowerChar_def toLowerCase_def char_of_def
  bit_Suc_0_iff indexOf_def

lemmas parser_eval = isKeyStart_def isKeyChar_def matchAssignment_def matchKeyValue_def
  strIndexOf_def strIndexOfAt_def substringFrom_def parseLine_def unquotedValueOf_def
  findToggleValues_def defaultToggleValues_def

section \<open>The cycle resolver\<close>

lemma indexOfFrom_notin: "x \<notin> set xs \<Longrightarrow> indexOfFrom xs x i = -1"
  by (induction xs arbitrary: i) auto

lemma indexOfFrom_lower: "x \<in> set xs \<Longrightarrow> i \<le> indexOfFrom xs x i"
proof (induction xs arbitrary: i)
  case Nil
  then show ?case by simp
next
  case (Cons y ys)
  show ?case
  proof (cases "y = x")
    case True
    then show ?thesis by simp
  next
    case False
    with Cons.prems have "x \<in> set ys" by simp
    from Cons.IH [OF this, of "i + 1"] False show ?thesis by simp
  qed
qed

lemma indexOfFrom_nth:
  "distinct xs \<Longrightarrow> j < length xs \<Longrightarrow> indexOfFrom xs (xs ! j) i = i + int j"
proof (induction xs arbitrary: i j)
  case Nil
  then show ?case by simp
next
  case (Cons y ys)
  show ?case
  proof (cases j)
    case 0
    then show ?thesis by simp
  next
    case (Suc k)
    with Cons.prems have k: "k < length ys" and d: "distinct ys" and ny: "y \<notin> set ys"
      by simp_all
    from k ny have "y \<noteq> ys ! k" by (metis nth_mem)
    with Cons.IH [OF d k, of "i + 1"] Suc show ?thesis by simp
  qed
qed

lemma dropWhile_same_length: "length (dropWhile P xs) = length xs \<Longrightarrow> dropWhile P xs = xs"
proof (cases xs)
  case Nil
  then show ?thesis by simp
next
  case (Cons y ys)
  assume len: "length (dropWhile P xs) = length xs"
  show ?thesis
  proof (cases "P y")
    case True
    have "length (dropWhile P ys) \<le> length ys" by (rule length_dropWhile_le)
    with len Cons True show ?thesis by simp
  next
    case False
    with Cons show ?thesis by simp
  qed
qed

lemma length_trim_le: "length (trim s) \<le> length s"
proof -
  have "length (trim s) \<le> length (dropWhile isWhiteSpace s)"
    unfolding trim_def trimEnd_def trimStart_def
    by (metis length_dropWhile_le length_rev)
  also have "\<dots> \<le> length s" by (rule length_dropWhile_le)
  finally show ?thesis .
qed

lemma trim_same_length: 
  assumes "length (trim s) = length s" shows "trim s = s"
proof -
  let ?t = "dropWhile isWhiteSpace s"
  have a: "length (trim s) \<le> length ?t"
    unfolding trim_def trimEnd_def trimStart_def
    by (metis length_dropWhile_le length_rev)
  have b: "length ?t \<le> length s" by (rule length_dropWhile_le)
  from a b assms have "length ?t = length s" by simp
  then have t: "?t = s" by (rule dropWhile_same_length)
  with assms have "length (dropWhile isWhiteSpace (rev s)) = length (rev s)"
    by (simp add: trim_def trimEnd_def trimStart_def)
  then have "dropWhile isWhiteSpace (rev s) = rev s" by (rule dropWhile_same_length)
  with t show ?thesis by (simp add: trim_def trimEnd_def trimStart_def)
qed

lemma length_stripQuotes_le: "length (stripQuotes s) \<le> length s"
  by (cases s) (auto simp: stripQuotes_def Let_def)

lemma stripQuotes_same_length:
  "length (stripQuotes s) = length s \<Longrightarrow> \<not> startsWith s q \<or> \<not> isQuote q"
  by (cases s) (auto simp: stripQuotes_def Let_def startsWith_def split: if_splits)

lemma stripQuotes_same_length_end:
  "length (stripQuotes s) = length s \<Longrightarrow> \<not> endsWith s q \<or> \<not> isQuote q"
  by (cases s) (auto simp: stripQuotes_def Let_def endsWith_def split: if_splits)

lemma bare_value:
  assumes "stripQuotes (trim v) = v"
  shows "trim v = v" and "stripQuotes v = v"
proof -
  have "length v = length (stripQuotes (trim v))" using assms by simp
  also have "\<dots> \<le> length (trim v)" by (rule length_stripQuotes_le)
  finally have "length (trim v) = length v" using length_trim_le [of v] by simp
  then show "trim v = v" by (rule trim_same_length)
  with assms show "stripQuotes v = v" by simp
qed

lemma getNextValue_bare_member:
  assumes d: "distinct G" and i: "i < length G" and b: "stripQuotes (trim (G ! i)) = G ! i"
  shows "getNextValue (G ! i) G = G ! ((i + 1) mod length G)"
proof -
  from bare_value [OF b] have t: "trim (G ! i) = G ! i" and s: "stripQuotes (G ! i) = G ! i" 
    by simp_all
  from s have nq: "\<not> startsWith (G ! i) DQ" "\<not> startsWith (G ! i) SQ"
    using stripQuotes_same_length [of "G ! i"] by (auto simp: isQuote_def)
  have idx: "indexOf G (G ! i) = int i"
    using indexOfFrom_nth [OF d i, of 0] by (simp add: indexOf_def)
  have "nat ((int i + 1) mod int (length G)) = (i + 1) mod length G"
    by (metis nat_int of_nat_1 of_nat_add zmod_int)
  with t s nq idx show ?thesis
    by (simp add: getNextValue_def Let_def)
qed

lemma getNextValue_iterate:
  assumes d: "distinct G" and i: "i < length G" and b: "\<forall>v \<in> set G. stripQuotes (trim v) = v"
  shows "((\<lambda>v. getNextValue v G) ^^ k) (G ! i) = G ! ((i + k) mod length G)"
proof (induction k)
  case 0
  with i show ?case by simp
next
  case (Suc k)
  let ?j = "(i + k) mod length G"
  from i have "0 < length G" by (cases G) simp_all
  then have j: "?j < length G" by (rule mod_less_divisor)
  with b have "stripQuotes (trim (G ! ?j)) = G ! ?j" by simp
  from getNextValue_bare_member [OF d j this] Suc show ?case
    by (simp add: mod_Suc_eq)
qed

text \<open>
  Claim C3, as the program has it. Let \<open>G\<close> be a cycle group of distinct strings and
  \<open>i\<close> an index into it. If the member \<open>G ! i\<close> is bare (trimming and quote stripping
  leave it as it is) then \<open>getNextValue\<close> answers the member at \<open>(i + 1) mod |G|\<close>; and
  if every member of \<open>G\<close> is bare, applying \<open>getNextValue\<close> \<open>|G|\<close> times leads back to
  \<open>G ! i\<close>.
\<close>

theorem getNextValue_cycle:
  assumes "distinct G" and "i < length G"
  shows "(stripQuotes (trim (G ! i)) = G ! i \<longrightarrow>
            getNextValue (G ! i) G = G ! ((i + 1) mod length G))
       \<and> ((\<forall>v \<in> set G. stripQuotes (trim v) = v) \<longrightarrow>
            ((\<lambda>v. getNextValue v G) ^^ length G) (G ! i) = G ! i)"
  using assms getNextValue_bare_member [of G i] getNextValue_iterate [of G i "length G"]
  by simp

text \<open>The three-member group of the README, started at its last member.\<close>

theorem getNextValue_cycle_witness:
  "distinct [''dev'', ''staging'', ''prod''] \<and> (2::nat) < length [''dev'', ''staging'', ''prod'']
   \<and> getNextValue ''prod'' [''dev'', ''staging'', ''prod''] = ''dev''
   \<and> ((\<lambda>v. getNextValue v [''dev'', ''staging'', ''prod'']) ^^ 3) ''prod'' = ''prod''"
  using getNextValue_cycle [of "[''dev'', ''staging'', ''prod'']" 2]
  by (simp add: string_eval getNextValue_def numeral_3_eq_3)

text \<open>
  Claim C3 as stated fails for a member that carries quotes itself: in the group of the
  two quoted words \<open>"yes"\<close> and \<open>"no"\<close> the member at index 0 is looked up without its
  quotes, is not found, and comes back unchanged instead of the member at index 1.
\<close>

theorem getNextValue_quoted_member_counterexample:
  "getNextValue [DQ, CHR ''y'', CHR ''e'', CHR ''s'', DQ]
     [[DQ, CHR ''y'', CHR ''e'', CHR ''s'', DQ], [DQ, CHR ''n'', CHR ''o'', DQ]]
   \<noteq> [[DQ, CHR ''y'', CHR ''e'', CHR ''s'', DQ], [DQ, CHR ''n'', CHR ''o'', DQ]]
       ! ((0 + 1) mod length [[DQ, CHR ''y'', CHR ''e'', CHR ''s'', DQ], [DQ, CHR ''n'', CHR ''o'', DQ]])"
  by (simp add: getNextValue_def string_eval)

text \<open>
  Claim C4. The three examples of the claim hold on the program.
\<close>

lemma getNextValue_quote_examples:
  "getNextValue ([DQ] @ ''true'' @ [DQ]) [''true'', ''false''] = [DQ] @ ''false'' @ [DQ]"
  "getNextValue ([SQ] @ ''ON'' @ [SQ]) [''ON'', ''OFF''] = [SQ] @ ''OFF'' @ [SQ]"
  "getNextValue ''true'' [''true'', ''false''] = ''false''"
  by (simp_all add: getNextValue_def string_eval)

text \<open>
  Claim C4, the part that fails: the resolver must never remove a quote character beyond
  the detected layer. For the value \<open>"true\<close>, which has an opening quote and no closing
  one, no layer is detected, yet the stripping replacement removes the quote for the
  lookup and the answer \<open>false\<close> is written without it.
\<close>

theorem getNextValue_drops_unpaired_quote:
  "getNextValue (DQ # ''true'') [''true'', ''false''] = ''false''"
  by (simp add: getNextValue_def string_eval)

section \<open>The value matcher\<close>

lemma stripQuotes_take_drop:
  "stripQuotes t =
     (let a = (if t \<noteq> [] \<and> isQuote (hd t) then 1 else 0);
          b = (if a < length t \<and> isQuote (last t) then 1 else 0)
      in take (length t - a - b) (drop a t))"
proof (cases t)
  case Nil
  then show ?thesis by (simp add: stripQuotes_def)
next
  case (Cons c cs)
  show ?thesis
  proof (cases "cs = []")
    case True
    with Cons show ?thesis by (simp add: stripQuotes_def Let_def)
  next
    case False
    then have "take (length cs - Suc 0) cs = butlast cs" by (simp add: butlast_conv_take)
    moreover have "take (length cs) (c # cs) = c # butlast cs" using False
      by (cases cs rule: rev_cases) simp_all
    ultimately show ?thesis using Cons False
      by (simp add: stripQuotes_def Let_def)
  qed
qed

text \<open>
  What the normalisation of the matcher computes: it trims the value, deletes carriage
  returns, then drops a quote character at the front if there is one and, independently,
  a quote character at the end if one is left there. A value whose normalised form is
  empty gets no group.
\<close>

lemma unquotedValueOf_take_drop:
  "unquotedValueOf v =
     (let t = removeCR (trim v);
          a = (if t \<noteq> [] \<and> isQuote (hd t) then 1 else 0);
          b = (if a < length t \<and> isQuote (last t) then 1 else 0)
      in take (length t - a - b) (drop a t))"
  using stripQuotes_take_drop [of "removeCR (trim v)"]
  by (simp add: unquotedValueOf_def Let_def)

lemma findToggleValues_empty: "unquotedValueOf v = [] \<Longrightarrow> findToggleValues v table = None"
  by (simp add: findToggleValues_def)

text \<open>
  Claim C5, where the program departs from it: quotes are to be stripped only when a
  matching pair surrounds the value. The value \<open>"true\<close> has an opening quote and no
  closing one, so the normalisation of the specification leaves it alone and no group
  holds it; the program's replacement strips the lone quote and the matcher answers the
  group of \<open>true\<close>.
\<close>

theorem findToggleValues_strips_unpaired_quote:
  "unquotedValueOf (DQ # ''true'') = ''true''
   \<and> specNormalize (DQ # ''true'') = DQ # ''true''
   \<and> findToggleValues (DQ # ''true'') [[''true'', ''false'']] = Some [''true'', ''false'']"
  by (simp add: specNormalize_def parser_eval string_eval)

lemma findGroup_find: "findGroup u table = find (groupMatches u) table"
  by (induction table) (simp_all add: groupMatches_def Let_def)

text \<open>
  Claim C6. The matcher answers the first group of the table, in table order, that
  matches the normalised value verbatim or under case-insensitive comparison, and it
  answers that group as configured; the value \<open>yes\<close> against the single group
  \<open>YES\<close>, \<open>NO\<close> gets that group.
\<close>

theorem findToggleValues_first_matching_group:
  "findToggleValues v table =
     (if unquotedValueOf v = [] then None else find (groupMatches (unquotedValueOf v)) table)
   \<and> findToggleValues ''yes'' [[''YES'', ''NO'']] = Some [''YES'', ''NO'']"
  by (simp add: findToggleValues_def findGroup_find Let_def unquotedValueOf_def groupMatches_def
      string_eval)

section \<open>The line parser\<close>

lemma equals_is_no_key_char:
  "\<not> isKeyStart (CHR ''='')" "\<not> isKeyChar (CHR ''='')" "\<not> isWhiteSpace (CHR ''='')"
  by (simp_all add: isKeyStart_def isKeyChar_def isWhiteSpace_def)

lemma not_in_takeWhile: "\<not> P x \<Longrightarrow> x \<notin> set (takeWhile P xs)"
  by (auto dest: set_takeWhileD)

lemma dropWhile_head: "dropWhile P xs = [] \<or> \<not> P (hd (dropWhile P xs))"
  by (metis hd_dropWhile)

lemma matchAssignment_shape:
  assumes "matchAssignment s = Some (k, raw)"
  shows "\<exists>b ws. s = k @ b @ ''='' @ ws @ raw \<and> CHR ''='' \<notin> set (k @ b)
           \<and> (\<forall>c \<in> set ws. isWhiteSpace c) \<and> (raw = [] \<or> \<not> isWhiteSpace (hd raw))"
proof -
  from assms obtain c cs where s: "s = c # cs" and c: "isKeyStart c"
    by (cases s) (auto simp: matchAssignment_def split: if_splits)
  let ?r1 = "dropWhile isKeyChar cs"
  from assms s c obtain afterEquals where
    r2: "dropWhile isWhiteSpace ?r1 = CHR ''='' # afterEquals"
    and raw: "raw = dropWhile isWhiteSpace afterEquals"
    and k: "k = c # takeWhile isKeyChar cs"
    by (auto simp: matchAssignment_def Let_def split: list.splits if_splits)
  let ?b = "takeWhile isWhiteSpace ?r1"
  let ?ws = "takeWhile isWhiteSpace afterEquals"
  have "s = k @ ?r1" using s k by simp
  also have "?r1 = ?b @ dropWhile isWhiteSpace ?r1" by simp
  also have "dropWhile isWhiteSpace ?r1 = ''='' @ ?ws @ raw" using r2 raw by simp
  finally have shape: "s = k @ ?b @ ''='' @ ?ws @ raw" .
  have "c \<noteq> CHR ''=''" using c equals_is_no_key_char(1) by auto
  moreover have "CHR ''='' \<notin> set (takeWhile isKeyChar cs)"
    by (rule not_in_takeWhile) (rule equals_is_no_key_char)
  moreover have "CHR ''='' \<notin> set ?b"
    by (rule not_in_takeWhile) (rule equals_is_no_key_char)
  ultimately have noeq: "CHR ''='' \<notin> set (k @ ?b)" using k by simp
  have ws: "\<forall>c \<in> set ?ws. isWhiteSpace c" by (auto dest: set_takeWhileD)
  have "raw = [] \<or> \<not> isWhiteSpace (hd raw)" unfolding raw by (rule dropWhile_head)
  with shape noeq ws show ?thesis by blast
qed

lemma matchKeyValue_shape:
  assumes "matchKeyValue s = Some (k, raw)"
  shows "\<exists>a b ws. s = a @ k @ b @ ''='' @ ws @ raw \<and> CHR ''='' \<notin> set (a @ k @ b)
           \<and> (\<forall>c \<in> set ws. isWhiteSpace c) \<and> (raw = [] \<or> \<not> isWhiteSpace (hd raw))"
proof (cases "matchAssignment s = Some (k, raw)")
  case True
  from matchAssignment_shape [OF True] obtain b ws where
    "s = [] @ k @ b @ ''='' @ ws @ raw \<and> CHR ''='' \<notin> set ([] @ k @ b)
      \<and> (\<forall>c \<in> set ws. isWhiteSpace c) \<and> (raw = [] \<or> \<not> isWhiteSpace (hd raw))"
    by auto
  then show ?thesis by blast
next
  case False
  let ?rest = "dropWhile isWhiteSpace (drop 6 s)"
  from assms False have e: "take 6 s = ''export''"
    and m: "matchAssignment ?rest = Some (k, raw)"
    by (auto simp: matchKeyValue_def Let_def split: if_splits option.splits)
  let ?a = "''export'' @ takeWhile isWhiteSpace (drop 6 s)"
  from matchAssignment_shape [OF m] obtain b ws where
    r: "?rest = k @ b @ ''='' @ ws @ raw" and n: "CHR ''='' \<notin> set (k @ b)"
    and w: "\<forall>c \<in> set ws. isWhiteSpace c" and h: "raw = [] \<or> \<not> isWhiteSpace (hd raw)"
    by auto
  have "s = take 6 s @ drop 6 s" by simp
  also have "drop 6 s = takeWhile isWhiteSpace (drop 6 s) @ ?rest" by simp
  finally have "s = ?a @ ?rest" using e by simp
  with r have shape: "s = ?a @ k @ b @ ''='' @ ws @ raw" by simp
  have "CHR ''='' \<notin> set (takeWhile isWhiteSpace (drop 6 s))"
    by (rule not_in_takeWhile) (rule equals_is_no_key_char)
  with n have "CHR ''='' \<notin> set (?a @ k @ b)" by simp
  with shape w h show ?thesis by blast
qed

lemma strIndexOfFrom_at_prefix: "strIndexOfFrom (k @ b) k i = i"
proof (cases "k @ b")
  case Nil
  then show ?thesis by simp
next
  case (Cons x xs)
  have "take (length k) (k @ b) = k" by simp
  with Cons have "take (length k) (x # xs) = k" by simp
  then have "strIndexOfFrom (x # xs) k i = i" by simp
  with Cons show ?thesis by simp
qed

lemma strIndexOfFrom_occurrence:
  "i \<le> strIndexOfFrom (a @ k @ b) k i \<and> strIndexOfFrom (a @ k @ b) k i \<le> i + int (length a)"
proof (induction a arbitrary: i)
  case Nil
  then show ?case by (simp add: strIndexOfFrom_at_prefix)
next
  case (Cons x a)
  from Cons.IH [of "i + 1"] show ?case by simp
qed

lemma strIndexOfFrom_char:
  "c \<notin> set p \<Longrightarrow> strIndexOfFrom (p @ c # r) [c] i = i + int (length p)"
  by (induction p arbitrary: i) auto

lemma trimEnd_split:
  "\<exists>t. s = trimEnd s @ t \<and> (\<forall>c \<in> set t. isWhiteSpace c)"
proof -
  let ?t = "rev (takeWhile isWhiteSpace (rev s))"
  have "rev (takeWhile isWhiteSpace (rev s) @ dropWhile isWhiteSpace (rev s))
          = rev (dropWhile isWhiteSpace (rev s)) @ rev (takeWhile isWhiteSpace (rev s))"
    by (rule rev_append)
  moreover have "takeWhile isWhiteSpace (rev s) @ dropWhile isWhiteSpace (rev s) = rev s"
    by (rule takeWhile_dropWhile_id)
  ultimately have "rev (rev s) = trimEnd s @ ?t" by (simp only: trimEnd_def)
  then have "s = trimEnd s @ ?t" by (simp only: rev_rev_ident)
  moreover have "\<forall>c \<in> set ?t. isWhiteSpace c" by (auto dest: set_takeWhileD)
  ultimately show ?thesis by blast
qed

lemma trimEnd_last: "trimEnd s = [] \<or> \<not> isWhiteSpace (last (trimEnd s))"
proof -
  have "dropWhile isWhiteSpace (rev s) = [] \<or> \<not> isWhiteSpace (hd (dropWhile isWhiteSpace (rev s)))"
    by (rule dropWhile_head)
  then show ?thesis by (auto simp: trimEnd_def last_rev)
qed

lemma trimStart_no_lead: "s = [] \<or> \<not> isWhiteSpace (hd s) \<Longrightarrow> trimStart s = s"
  by (cases s) (auto simp: trimStart_def)

lemma trimStart_skip:
  "\<forall>c \<in> set ws. isWhiteSpace c \<Longrightarrow> s = [] \<or> \<not> isWhiteSpace (hd s) \<Longrightarrow> trimStart (ws @ s) = s"
  using trimStart_no_lead [of s] by (simp add: trimStart_def dropWhile_append2)

lemma parseLine_shape:
  assumes "parseLine ln i table = Some e"
  shows "\<exists>pre ws t. removeCR ln = pre @ ''='' @ ws @ value' e @ t
           \<and> CHR ''='' \<notin> set pre
           \<and> (\<forall>c \<in> set ws. isWhiteSpace c) \<and> (\<forall>c \<in> set t. isWhiteSpace c)
           \<and> (value' e = [] \<or> \<not> isWhiteSpace (hd (value' e)) \<and> \<not> isWhiteSpace (last (value' e)))
           \<and> valueStart e = int (length pre + 1 + length ws)
           \<and> valueEnd e = valueStart e + int (length (value' e))"
proof -
  let ?s = "removeCR ln"
  from assms obtain k raw where m: "matchKeyValue ?s = Some (k, raw)"
    by (auto simp: parseLine_def Let_def split: if_splits option.splits)
  let ?eq = "strIndexOfAt ?s ''='' (strIndexOf ?s k)"
  let ?after = "substringFrom ?s (?eq + 1)"
  from assms m have v: "value' e = trim raw"
    and vs: "valueStart e = ?eq + 1 + (int (length ?after) - int (length (trimStart ?after)))"
    and ve: "valueEnd e = valueStart e + int (length (trim raw))"
    by (auto simp: parseLine_def Let_def split: if_splits)
  from matchKeyValue_shape [OF m] obtain a b ws where
    shape: "?s = a @ k @ b @ ''='' @ ws @ raw" and noeq: "CHR ''='' \<notin> set (a @ k @ b)"
    and w: "\<forall>c \<in> set ws. isWhiteSpace c" and h: "raw = [] \<or> \<not> isWhiteSpace (hd raw)"
    by blast
  let ?pre = "a @ k @ b"
  define j where "j = nat (strIndexOf ?s k)"
  have occ: "0 \<le> strIndexOf ?s k \<and> strIndexOf ?s k \<le> int (length a)"
    using strIndexOfFrom_occurrence [of 0 a k "b @ ''='' @ ws @ raw"] shape
    by (simp add: strIndexOf_def)
  then have j: "j \<le> length a" and jk: "int j = strIndexOf ?s k"
    by (simp_all add: j_def nat_le_iff)
  then have jpre: "j \<le> length ?pre" and js: "min j (length ?s) = j" using shape by simp_all
  have d: "drop j ?s = drop j ?pre @ CHR ''='' # (ws @ raw)" using shape jpre by simp
  have "CHR ''='' \<notin> set (drop j ?pre)" using noeq by (meson in_set_dropD)
  from strIndexOfFrom_char [OF this, of "ws @ raw" "int j"]
  have "strIndexOfFrom (drop j ?s) ''='' (int j) = int j + int (length (drop j ?pre))"
    using d by simp
  with jpre have "strIndexOfFrom (drop j ?s) ''='' (int j) = int (length ?pre)" by simp
  with js have eq: "?eq = int (length ?pre)"
    by (simp add: strIndexOfAt_def Let_def j_def)
  have after: "?after = ws @ raw"
    unfolding eq substringFrom_def using shape by (simp add: nat_add_distrib)
  have ts: "trimStart ?after = raw" unfolding after using w h by (rule trimStart_skip)
  from vs eq after ts have vs': "valueStart e = int (length ?pre + 1 + length ws)" by simp
  have tr: "trim raw = trimEnd raw" using h by (simp add: trim_def trimStart_no_lead)
  from trimEnd_split [of raw] obtain t where
    t: "raw = trimEnd raw @ t" and tw: "\<forall>c \<in> set t. isWhiteSpace c" by blast
  have hd: "trimEnd raw = [] \<or> \<not> isWhiteSpace (hd (trimEnd raw))"
  proof (cases "trimEnd raw = []")
    case True
    then show ?thesis by simp
  next
    case False
    with t have "hd raw = hd (trimEnd raw)" and "raw \<noteq> []" by (metis hd_append2, auto)
    with h show ?thesis by simp
  qed
  have "?s = ?pre @ ''='' @ ws @ value' e @ t" using shape t v tr by simp
  moreover have "value' e = [] \<or> \<not> isWhiteSpace (hd (value' e)) \<and> \<not> isWhiteSpace (last (value' e))"
    using hd trimEnd_last [of raw] v tr by auto
  moreover have "valueEnd e = valueStart e + int (length (value' e))" using ve v by simp
  ultimately show ?thesis using noeq w tw vs' by blast
qed

text \<open>
  Claim C7. For every line that \<open>parseLine\<close> turns into an entry, the offsets are
  offsets into the line without its carriage returns and satisfy
  \<open>0 \<le> valueStart \<le> valueEnd \<le> length\<close>; the characters from \<open>valueStart\<close> up to
  \<open>valueEnd\<close> are exactly the stored value, which neither begins nor ends with white
  space; the text before \<open>valueStart\<close> ends with the first equals sign of the line
  followed by white space only, and only white space follows \<open>valueEnd\<close>.
\<close>

theorem parseLine_value_span:
  assumes "parseLine ln i table = Some e"
  shows "0 \<le> valueStart e \<and> valueStart e \<le> valueEnd e
       \<and> valueEnd e \<le> int (length (removeCR ln))
       \<and> take (nat (valueEnd e - valueStart e)) (drop (nat (valueStart e)) (removeCR ln)) = value' e
       \<and> (value' e \<noteq> [] \<longrightarrow>
            \<not> isWhiteSpace (hd (value' e)) \<and> \<not> isWhiteSpace (last (value' e)))
       \<and> (\<exists>pre ws. take (nat (valueStart e)) (removeCR ln) = pre @ ''='' @ ws
            \<and> CHR ''='' \<notin> set pre \<and> (\<forall>c \<in> set ws. isWhiteSpace c))
       \<and> (\<forall>c \<in> set (drop (nat (valueEnd e)) (removeCR ln)). isWhiteSpace c)"
proof -
  from parseLine_shape [OF assms] obtain pre ws t where
    s: "removeCR ln = pre @ ''='' @ ws @ value' e @ t"
    and n: "CHR ''='' \<notin> set pre"
    and w: "\<forall>c \<in> set ws. isWhiteSpace c" and tw: "\<forall>c \<in> set t. isWhiteSpace c"
    and b: "value' e = [] \<or> \<not> isWhiteSpace (hd (value' e)) \<and> \<not> isWhiteSpace (last (value' e))"
    and vs: "valueStart e = int (length pre + 1 + length ws)"
    and ve: "valueEnd e = valueStart e + int (length (value' e))"
    by blast
  have s': "removeCR ln = (pre @ ''='' @ ws) @ value' e @ t" using s by simp
  have l: "length (pre @ ''='' @ ws) = nat (valueStart e)" using vs by simp
  have d: "drop (nat (valueStart e)) (removeCR ln) = value' e @ t"
    unfolding s' l [symmetric] by simp
  have tk: "take (nat (valueStart e)) (removeCR ln) = pre @ ''='' @ ws"
    unfolding s' l [symmetric] by simp
  have s'': "removeCR ln = (pre @ ''='' @ ws @ value' e) @ t" using s by simp
  have l2: "length (pre @ ''='' @ ws @ value' e) = nat (valueEnd e)" using vs ve by simp
  have d2: "drop (nat (valueEnd e)) (removeCR ln) = t"
    unfolding s'' l2 [symmetric] by simp
  have "0 \<le> valueStart e \<and> valueStart e \<le> valueEnd e" using vs ve by simp
  moreover have "valueEnd e \<le> int (length (removeCR ln))" using vs ve s by simp
  moreover have "take (nat (valueEnd e - valueStart e)) (drop (nat (valueStart e)) (removeCR ln))
                   = value' e" using d ve by simp
  moreover have "\<exists>pre ws. take (nat (valueStart e)) (removeCR ln) = pre @ ''='' @ ws
            \<and> CHR ''='' \<notin> set pre \<and> (\<forall>c \<in> set ws. isWhiteSpace c)"
    using tk n w by blast
  moreover have "value' e \<noteq> [] \<longrightarrow>
            \<not> isWhiteSpace (hd (value' e)) \<and> \<not> isWhiteSpace (last (value' e))"
    using b by blast
  moreover have "\<forall>c \<in> set (drop (nat (valueEnd e)) (removeCR ln)). isWhiteSpace c"
    unfolding d2 by (rule tw)
  ultimately show ?thesis by blast
qed


text \<open>
  The line \<open>FOO = "bar"\<close> followed by two spaces: the span from 6 to 11 holds the
  quoted word and nothing else.
\<close>

theorem parseLine_value_span_witness:
  "parseLine spacedLine 0 defaultToggleValues = Some spacedEntry
   \<and> valueStart spacedEntry = 6 \<and> valueEnd spacedEntry = 11
   \<and> take (nat (valueEnd spacedEntry - valueStart spacedEntry))
        (drop (nat (valueStart spacedEntry)) (removeCR spacedLine)) = [DQ] @ ''bar'' @ [DQ]"
proof -
  have p: "parseLine spacedLine 0 defaultToggleValues = Some spacedEntry" by code_simp
  have v: "value' spacedEntry = [DQ] @ ''bar'' @ [DQ]" 
    and s: "valueStart spacedEntry = 6" and e: "valueEnd spacedEntry = 11"
    by (simp_all add: spacedEntry_def)
  from parseLine_value_span [OF p] have
    "take (nat (valueEnd spacedEntry - valueStart spacedEntry))
        (drop (nat (valueStart spacedEntry)) (removeCR spacedLine)) = value' spacedEntry"
    by blast
  with p v s e show ?thesis by simp
qed

section \<open>The toggle service\<close>

lemma addToGitignore_keeps:
  "gitignorePath h u \<noteq> Some p \<Longrightarrow> documents (addToGitignore h u w) p = documents w p"
  "savedDocuments (addToGitignore h u w) = savedDocuments w"
  "shownDocuments (addToGitignore h u w) = shownDocuments w"
  by (auto simp: addToGitignore_def Let_def split: option.splits)

lemma gitignoreCheck_keeps:
  assumes "gitignoreCheck h u w = Inr w1"
  shows "gitignorePath h u \<noteq> Some p \<Longrightarrow> documents w1 p = documents w p"
    and "savedDocuments w1 = savedDocuments w"
    and "shownDocuments w1 = shownDocuments w"
  using assms
  by (auto simp: gitignoreCheck_def addToGitignore_keeps split: if_splits WarningChoice.splits)

lemma parseLine_line: "parseLine l i table = Some e \<Longrightarrow> line e = i"
  by (auto simp: parseLine_def Let_def split: if_splits option.splits prod.splits)

lemma parseLines_line_range:
  "e \<in> set (parseLines ls i table) \<Longrightarrow> i \<le> line e \<and> line e < i + int (length ls)"
proof (induction ls arbitrary: i)
  case Nil
  then show ?case by simp
next
  case (Cons l ls)
  show ?case
  proof (cases "parseLine l i table")
    case None
    with Cons.prems have "e \<in> set (parseLines ls (i + 1) table)" by simp
    from Cons.IH [OF this] show ?thesis by simp
  next
    case (Some e')
    with Cons.prems have "e = e' \<or> e \<in> set (parseLines ls (i + 1) table)" by auto
    then show ?thesis
    proof
      assume "e = e'"
      with Some parseLine_line [of l i table e'] show ?thesis by simp
    next
      assume "e \<in> set (parseLines ls (i + 1) table)"
      from Cons.IH [OF this] show ?thesis by simp
    qed
  qed
qed

lemma find_line_in_document:
  assumes "find (\<lambda>e. line e = n) (parseLines (splitLines content) 0 table) = Some entry"
  shows "\<exists>lineText. lineAt content n = Inr lineText"
proof -
  from assms have "entry \<in> set (parseLines (splitLines content) 0 table)" and "line entry = n"
    by (auto simp: find_Some_iff)
  with parseLines_line_range [of entry "splitLines content" 0 table]
  have "0 \<le> n \<and> nat n < length (splitLines content)" by auto
  then show ?thesis by (simp add: lineAt_def)
qed

lemma parseFile_Inr:
  assumes "parseFile h w u = Inr parsed"
  obtains content where "openTextDocument w u = Inr content"
    and "entries parsed = parseLines (splitLines content) 0 (toggleValuesTable (config h))"
  using assms by (auto simp: parseFile_def Let_def split: sum.splits)

text \<open>
  Claim C9. For every host, path, line number and world, \<open>toggleSilent\<close> answers the
  same \<open>ToggleResult\<close> as \<open>toggle\<close> and leaves the same world, except that it brings no
  document into view: the documents, the saved documents, the acknowledged files and the
  requests to the ignore file agree.
\<close>

theorem toggle_and_toggleSilent_agree:
  "fst (toggleSilent h u n w) = fst (toggle h u n w)
   \<and> snd (toggleSilent h u n w) = (snd (toggle h u n w))\<lparr>shownDocuments := shownDocuments w\<rparr>"
proof (cases "gitignoreCheck h u w")
  case (Inl cancelled)
  then show ?thesis by (simp add: toggle_def toggleSilent_def)
next
  case g: (Inr w1)
  from gitignoreCheck_keeps(3) [OF g] have sh: "w1\<lparr>shownDocuments := shownDocuments w\<rparr> = w1"
    by simp
  show ?thesis
  proof (cases "parseFile h w1 u")
    case (Inl message)
    with g sh show ?thesis by (simp add: toggle_def toggleSilent_def)
  next
    case p: (Inr parsed)
    from p obtain content where o: "openTextDocument w1 u = Inr content"
      and es: "entries parsed = parseLines (splitLines content) 0 (toggleValuesTable (config h))"
      by (rule parseFile_Inr)
    show ?thesis
    proof (cases "find (\<lambda>e. line e = n) (entries parsed)")
      case None
      with g p sh show ?thesis by (simp add: toggle_def toggleSilent_def)
    next
      case f: (Some entry)
      from f es find_line_in_document [of n content "toggleValuesTable (config h)" entry]
      obtain lineText where l: "lineAt content n = Inr lineText" by auto
      from gitignoreCheck_keeps(3) [OF g]
      have sh2: "\<And>d s. w1\<lparr>shownDocuments := shownDocuments w1 @ [u], documents := d,
                    savedDocuments := s, shownDocuments := shownDocuments w\<rparr>
                 = w1\<lparr>documents := d, savedDocuments := s\<rparr>"
        and sh3: "w1\<lparr>shownDocuments := shownDocuments w1 @ [u], shownDocuments := shownDocuments w\<rparr> = w1"
        by simp_all
      from g p f o l sh sh2 sh3 show ?thesis
        by (simp add: toggle_def toggleSilent_def Let_def)
    qed
  qed
qed







lemma sample_gitignoreCheck:
  "gitignoreCheck quietHost ''.env'' (envWorld text) = Inr (envWorld text)"
  by (simp add: gitignoreCheck_def quietHost_def defaultConfig_def)

lemma envWorld_fields:
  "documents (envWorld text) = [''.env'' \<mapsto> text]"
  "shownDocuments (envWorld text) = []" "savedDocuments (envWorld text) = []"
  by (simp_all add: envWorld_def)

lemma sample_parseFile: "parseFile quietHost (envWorld sampleText) ''.env'' = Inr sampleParsed"
  by code_simp

lemma toggle_sample:
  "toggle quietHost ''.env'' 0 (envWorld sampleText)
     = (succeeded ''false'',
        (envWorld sampleText)\<lparr>shownDocuments := [''.env''],
           documents := [''.env'' \<mapsto> toggledText], savedDocuments := [''.env'']\<rparr>)"
proof -
  have f: "find (\<lambda>e. line e = 0) (entries sampleParsed) = Some debugEntry"
    by (simp add: sampleParsed_def debugEntry_def)
  have o: "openTextDocument (envWorld sampleText) ''.env'' = Inr sampleText"
    by (simp add: openTextDocument_def envWorld_def)
  have l: "lineAt sampleText 0 = Inr ''DEBUG=true''" by code_simp
  have n: "getNextValue ''true'' [''true'', ''false''] = ''false''" by code_simp
  have r: "replaceRange sampleText 0 6 10 ''false'' = toggledText" by code_simp
  have e: "editApplies quietHost" by (simp add: quietHost_def)
  have d: "isToggleable debugEntry" "toggleValues debugEntry = Some [''true'', ''false'']"
    "value' debugEntry = ''true''" "valueStart debugEntry = 6" "valueEnd debugEntry = 10"
    by (simp_all add: debugEntry_def)
  show ?thesis
    by (simp add: toggle_def sample_gitignoreCheck sample_parseFile f o l n r e d envWorld_fields)
qed

text \<open>
  Toggling line 0 of the scenario silently rewrites \<open>true\<close> to \<open>false\<close> and shows
  nothing, while \<open>toggle\<close> shows the document.
\<close>

theorem toggle_and_toggleSilent_agree_witness:
  "fst (toggleSilent quietHost ''.env'' 0 (envWorld sampleText)) = succeeded ''false''
   \<and> documents (snd (toggleSilent quietHost ''.env'' 0 (envWorld sampleText))) ''.env''
       = Some toggledText
   \<and> shownDocuments (snd (toggleSilent quietHost ''.env'' 0 (envWorld sampleText))) = []
   \<and> shownDocuments (snd (toggle quietHost ''.env'' 0 (envWorld sampleText))) = [''.env'']"
  using toggle_and_toggleSilent_agree [of quietHost "''.env''" 0 "envWorld sampleText"]
  by (simp add: toggle_sample envWorld_fields)

text \<open>
  Claim C10. \<open>toggleEntry\<close> is \<open>toggle\<close> at the entry's line number, and whatever the
  other fields of the supplied entry hold, the result is the same.
\<close>

theorem toggleEntry_uses_line_only:
  "toggleEntry h u entry w = toggle h u (line entry) w
   \<and> toggleEntry h u (entry\<lparr>key := k, value' := v, valueStart := a, valueEnd := b,
        isToggleable := t, toggleValues := g, rawLine := r\<rparr>) w
       = toggle h u (line entry) w"
  by (simp add: toggleEntry_def)

text \<open>
  An entry for line 0 with an outdated value and outdated offsets still toggles the
  current text at the current offsets.
\<close>

theorem toggleEntry_uses_line_only_witness:
  "fst (toggleEntry quietHost ''.env'' staleEntry (envWorld sampleText)) = succeeded ''false''
   \<and> documents (snd (toggleEntry quietHost ''.env'' staleEntry (envWorld sampleText))) ''.env''
       = Some toggledText"
proof -
  have l: "line staleEntry = 0" by (simp add: staleEntry_def)
  from toggleEntry_uses_line_only [of quietHost "''.env''" staleEntry "envWorld sampleText"] l
  show ?thesis by (simp add: toggle_sample)
qed

text \<open>
  Claim C1, where the program departs from it. With the default table the value \<open>True\<close>
  is flagged toggleable through the case-insensitive rule of the matcher, but the
  resolver looks it up with \<open>indexOf\<close>, which compares exactly: the lookup fails, the
  value comes back unchanged, and \<open>toggle\<close> reports success with that unchanged value
  while the document keeps its text.
\<close>

theorem toggle_case_variant_unchanged_success:
  "findToggleValues ''True'' defaultToggleValues = Some [''true'', ''false'']
   \<and> getNextValue ''True'' [''true'', ''false''] = ''True''
   \<and> fst (toggle quietHost ''.env'' 0 (envWorld ''DEBUG=True'')) = succeeded ''True''
   \<and> documents (snd (toggle quietHost ''.env'' 0 (envWorld ''DEBUG=True''))) ''.env''
       = Some ''DEBUG=True''"
  by code_simp

text \<open>The request is reported as a success carrying the old value.\<close>

theorem toggle_case_variant_unchanged_success_witness:
  "success (fst (toggle quietHost ''.env'' 0 (envWorld ''DEBUG=True'')))
   \<and> newValue (fst (toggle quietHost ''.env'' 0 (envWorld ''DEBUG=True''))) = Some ''True''"
  using toggle_case_variant_unchanged_success by (simp add: succeeded_def)

section \<open>The file cache\<close>

lemma storeFiles_map_of:
  "storeFiles files m = m ++ map_of (rev (map (\<lambda>f. (uri f, f)) files))"
  by (induction files arbitrary: m) (simp_all add: map_add_upd_left)

text \<open>
  Claim C8, as the program has it. \<open>refresh\<close> first empties the cache and fires nothing;
  when the scan has delivered its files it stores them all in one synchronous step on top
  of whatever the cache holds by then and fires one change notification. A consumer that
  reads the cache while a lone \<open>refresh\<close> runs therefore sees the empty cache and then
  the cache of the scanned files, never a cache filled in part.
\<close>

theorem refresh_clears_then_stores:
  "map parsedFiles (refreshObservable files ix)
     = [Map.empty, map_of (rev (map (\<lambda>f. (uri f, f)) files))]
   \<and> map changeEvents (refreshObservable files ix) = [changeEvents ix, changeEvents ix + 1]
   \<and> parsedFiles (refreshStore files ix')
       = parsedFiles ix' ++ map_of (rev (map (\<lambda>f. (uri f, f)) files))
   \<and> changeEvents (refreshStore files ix') = changeEvents ix' + 1"
  by (simp add: refreshObservable_def refreshClear_def refreshStore_def storeFiles_map_of)

text \<open>
  Claim C8 as stated fails: the replacement is not atomic. The cache knows \<open>.env\<close>
  before the refresh and after it, but at the suspension point of the scan a consumer
  finds no such file.
\<close>

theorem refresh_empties_cache_counterexample:
  "parsedFiles envIndex ''.env'' = Some envFile
   \<and> parsedFiles (refreshObservable [envFile] envIndex ! 0) ''.env'' = None
   \<and> parsedFiles (refreshObservable [envFile] envIndex ! 1) ''.env'' = Some envFile"
  by (simp add: refreshObservable_def refreshClear_def refreshStore_def envIndex_def envFile_def)

end
